theory Spec2Isabelle
  imports Main "HOL-Library.Word"
begin

section \<open>Data model of wc.cpp\<close>

text \<open>
  \<^verbatim>\<open>unsigned char\<close> is an 8-bit word and \<^verbatim>\<open>std::uintmax_t\<close> a 64-bit word whose
  arithmetic wraps around, as unsigned arithmetic does in C++.
\<close>

type_synonym byte = "8 word"
type_synonym uintmax = "64 word"

record Options =
  count_bytes :: bool
  count_lines :: bool
  count_words :: bool
  count_max_line_length :: bool

record FileStatistics =
  lines :: uintmax
  words :: uintmax
  bytes :: uintmax
  max_line_length :: uintmax

datatype ParseOptionsError = help_requested | unknown_option

text \<open>\<^verbatim>\<open>FileStatistics {}\<close>: every counter starts at 0.\<close>

definition zero_stats :: FileStatistics where
  "zero_stats = \<lparr>lines = 0, words = 0, bytes = 0, max_line_length = 0\<rparr>"

text \<open>\<^verbatim>\<open>Options {}\<close>: every flag starts false.\<close>

definition no_options :: Options where
  "no_options = \<lparr>count_bytes = False, count_lines = False, count_words = False,
                  count_max_line_length = False\<rparr>"

subsection \<open>The execution locale\<close>

text \<open>
  \<^verbatim>\<open>main\<close> installs the user's locale, so \<^verbatim>\<open>isprint\<close>, \<^verbatim>\<open>isspace\<close> and the \<^verbatim>\<open>L\<close>
  format specifier depend on the environment. They are library functions, not code of
  the repository, and enter the model as a parameter.
\<close>

record Locale =
  isprint :: "byte \<Rightarrow> bool"
  isspace :: "byte \<Rightarrow> bool"
  format_L :: "uintmax \<Rightarrow> string"

text \<open>
  Modelled from the spec: the byte classification of the "C" locale, which the C library
  provides and wc.cpp only calls. Whitespace is 0x09 to 0x0D and 0x20; the printable bytes
  are 0x20 to 0x7E (0x00 to 0x1F and 0x7F are control bytes, bytes above 0x7F are not
  printable in the "C" locale).
\<close>

definition isspace_ascii :: "byte \<Rightarrow> bool" where
  "isspace_ascii c \<longleftrightarrow> (0x09 \<le> c \<and> c \<le> 0x0D) \<or> c = 0x20"

definition isprint_ascii :: "byte \<Rightarrow> bool" where
  "isprint_ascii c \<longleftrightarrow> 0x20 \<le> c \<and> c \<le> 0x7E"

text \<open>Decimal digits of a number, most significant first, without grouping.\<close>

definition digit :: "nat \<Rightarrow> char" where
  "digit d = ''0123456789'' ! d"

fun decimal :: "nat \<Rightarrow> string" where
  "decimal n = (if n < 10 then [digit n]
                else decimal (n div 10) @ [digit (n mod 10)])"

declare decimal.simps [simp del]

definition C_locale :: Locale where
  "C_locale = \<lparr>isprint = isprint_ascii, isspace = isspace_ascii,
               format_L = (\<lambda>n. decimal (unat n))\<rparr>"

subsection \<open>Input streams\<close>

text \<open>
  A \<^verbatim>\<open>std::istream\<close> is the bytes its source still delivers, whether the source fails
  (instead of ending) once they are consumed, and the three state bits.
\<close>

record istream =
  pending :: "byte list"
  faulty :: bool
  eofbit :: bool
  failbit :: bool
  badbit :: bool

text \<open>A freshly opened stream over the bytes \<open>data\<close> whose source ends cleanly.\<close>

definition open_stream :: "byte list \<Rightarrow> istream" where
  "open_stream data =
     \<lparr>pending = data, faulty = False, eofbit = False, failbit = False, badbit = False\<rparr>"

text \<open>A freshly opened stream whose source fails after delivering \<open>data\<close>.\<close>

definition faulty_stream :: "byte list \<Rightarrow> istream" where
  "faulty_stream data =
     \<lparr>pending = data, faulty = True, eofbit = False, failbit = False, badbit = False\<rparr>"

text \<open>
  \<^verbatim>\<open>is.read(buf, n)\<close> followed by \<^verbatim>\<open>is.gcount()\<close>: the bytes stored in the buffer (their
  number is \<^verbatim>\<open>gcount\<close>) and the stream afterwards. A stream that is not good stores
  nothing and sets \<^verbatim>\<open>failbit\<close>; a source that ends before \<open>n\<close> bytes sets \<^verbatim>\<open>eofbit\<close> and
  \<^verbatim>\<open>failbit\<close>; a source that fails sets \<^verbatim>\<open>badbit\<close>.
\<close>

definition is_read :: "nat \<Rightarrow> istream \<Rightarrow> byte list \<times> istream" where
  "is_read n strm =
     (if eofbit strm \<or> failbit strm \<or> badbit strm then ([], strm\<lparr>failbit := True\<rparr>)
      else if n \<le> length (pending strm)
        then (take n (pending strm), strm\<lparr>pending := drop n (pending strm)\<rparr>)
      else if faulty strm
        then (pending strm, strm\<lparr>pending := [], badbit := True\<rparr>)
      else (pending strm, strm\<lparr>pending := [], eofbit := True, failbit := True\<rparr>))"

text \<open>\<^verbatim>\<open>while (is)\<close>: the conversion to bool is \<^verbatim>\<open>!fail()\<close>.\<close>

definition is_ok :: "istream \<Rightarrow> bool" where
  "is_ok strm \<longleftrightarrow> \<not> failbit strm \<and> \<not> badbit strm"

section \<open>The counter\<close>

definition bufsize :: nat where
  "bufsize = 262144"

definition tab_width :: uintmax where
  "tab_width = 8"

text \<open>
  The running state of the pass: the statistics, \<^verbatim>\<open>in_word\<close> and \<^verbatim>\<open>line_pos\<close>.
\<close>

type_synonym wc_state = "FileStatistics \<times> bool \<times> uintmax"

text \<open>The body of the \<^verbatim>\<open>switch\<close>, with its fallthroughs written out.\<close>

fun classify :: "Locale \<Rightarrow> byte \<Rightarrow> wc_state \<Rightarrow> wc_state" where
  "classify L c (stats, in_word, line_pos) =
     (if c = 0x0A then
        (stats\<lparr>lines := lines stats + 1,
               max_line_length := max line_pos (max_line_length stats)\<rparr>, False, 0)
      else if c = 0x0D \<or> c = 0x0C then
        (stats\<lparr>max_line_length := max line_pos (max_line_length stats)\<rparr>, False, 0)
      else if c = 0x09 then
        (stats, False, line_pos + (tab_width - line_pos mod tab_width))
      else if c = 0x20 then
        (stats, False, line_pos + 1)
      else if c = 0x0B then
        (stats, False, line_pos)
      else
        (let in_word2 = \<not> isspace L c in
           (stats\<lparr>words := words stats + (if \<not> in_word \<and> in_word2 then 1 else 0)\<rparr>,
            in_word2,
            line_pos + (if isprint L c then 1 else 0))))"

text \<open>The \<^verbatim>\<open>for\<close> loop over one chunk.\<close>

definition scan_chunk :: "Locale \<Rightarrow> byte list \<Rightarrow> wc_state \<Rightarrow> wc_state" where
  "scan_chunk L buf s = fold (classify L) buf s"

definition add_bytes :: "nat \<Rightarrow> wc_state \<Rightarrow> wc_state" where
  "add_bytes count s =
     (case s of (stats, in_word, line_pos) \<Rightarrow>
        (stats\<lparr>bytes := bytes stats + of_nat count\<rparr>, in_word, line_pos))"

definition wants_scan :: "Options \<Rightarrow> bool" where
  "wants_scan options \<longleftrightarrow>
     count_lines options \<or> count_max_line_length options \<or> count_words options"

text \<open>The \<^verbatim>\<open>while (is)\<close> loop: one chunk per iteration.\<close>

function wc_loop :: "Locale \<Rightarrow> Options \<Rightarrow> istream \<Rightarrow> wc_state \<Rightarrow> istream \<times> wc_state" where
  "wc_loop L options strm s =
     (if \<not> is_ok strm then (strm, s)
      else
        (case is_read bufsize strm of (buf, strm') \<Rightarrow>
           if length buf = 0 then (strm', s)
           else wc_loop L options strm'
                  (if wants_scan options then scan_chunk L buf (add_bytes (length buf) s)
                   else add_bytes (length buf) s)))"
  by pat_completeness auto
termination
  by (relation "measure (\<lambda>(L, options, strm, s). length (pending strm))")
    (auto simp: is_read_def bufsize_def split: if_splits)

declare wc_loop.simps [simp del]

text \<open>
  \<^verbatim>\<open>wc\<close>: the pass, the final fold of \<^verbatim>\<open>line_pos\<close> into the maximum, and the test of
  \<^verbatim>\<open>is.bad()\<close>. The stream is returned as well, since \<^verbatim>\<open>std::cin\<close> outlives the call.
\<close>

definition wc :: "Locale \<Rightarrow> Options \<Rightarrow> istream \<Rightarrow> (bool + FileStatistics) \<times> istream" where
  "wc L options strm =
     (case wc_loop L options strm (zero_stats, False, 0) of
        (strm', stats, in_word, line_pos) \<Rightarrow>
          (let stats' = stats\<lparr>max_line_length := max line_pos (max_line_length stats)\<rparr>
           in (if badbit strm' then Inl False else Inr stats', strm')))"

subsection \<open>What one pass computes\<close>

text \<open>
  Auxiliary notions for the proofs: the stream once its source is exhausted, and the
  effect of the chunks taken together on the running state.
\<close>

definition drained :: "istream \<Rightarrow> istream" where
  "drained strm =
     (if faulty strm then strm\<lparr>pending := [], badbit := True\<rparr>
      else strm\<lparr>pending := [], eofbit := True, failbit := True\<rparr>)"

definition consume :: "Locale \<Rightarrow> Options \<Rightarrow> byte list \<Rightarrow> wc_state \<Rightarrow> wc_state" where
  "consume L options xs s =
     (if wants_scan options then scan_chunk L xs (add_bytes (length xs) s)
      else add_bytes (length xs) s)"

subsection \<open>Notions of the specification\<close>

text \<open>
  The maximal runs of elements satisfying \<open>P\<close>, counted by the positions where one
  starts: an element satisfying \<open>P\<close> that is the first of the list or follows one that
  does not satisfy \<open>P\<close>.
\<close>

definition run_starts :: "('a \<Rightarrow> bool) \<Rightarrow> 'a list \<Rightarrow> nat list" where
  "run_starts P xs =
     filter (\<lambda>i. P (xs ! i) \<and> (i = 0 \<or> \<not> P (xs ! (i - 1)))) [0..<length xs]"

definition maximal_runs :: "('a \<Rightarrow> bool) \<Rightarrow> 'a list \<Rightarrow> nat" where
  "maximal_runs P xs = length (run_starts P xs)"

text \<open>The bytes of a string literal, for concrete inputs.\<close>

definition bytes_of :: "string \<Rightarrow> byte list" where
  "bytes_of s = map of_char s"

text \<open>
  The display lines of an input: the segments between line breaks (newline, carriage
  return, form feed), the last one being what follows the last break.
\<close>

definition is_line_break :: "byte \<Rightarrow> bool" where
  "is_line_break c \<longleftrightarrow> c = 0x0A \<or> c = 0x0D \<or> c = 0x0C"

fun split_lines :: "byte list \<Rightarrow> byte list list" where
  "split_lines [] = [[]]"
| "split_lines (c # cs) =
     (if is_line_break c then [] # split_lines cs
      else (case split_lines cs of [] \<Rightarrow> [[c]] | l # ls \<Rightarrow> (c # l) # ls))"

text \<open>
  The display column after a byte that is not a line break: a tab moves to the next
  multiple of 8, a space and a printable byte take one column, anything else none.
\<close>

definition advance :: "Locale \<Rightarrow> nat \<Rightarrow> byte \<Rightarrow> nat" where
  "advance L col c =
     (if c = 0x09 then 8 * (col div 8 + 1)
      else if c = 0x20 then col + 1
      else if c = 0x0B then col
      else if isprint L c then col + 1
      else col)"

definition display_width :: "Locale \<Rightarrow> byte list \<Rightarrow> nat" where
  "display_width L line = foldl (advance L) 0 line"

definition widest_line :: "Locale \<Rightarrow> byte list \<Rightarrow> nat" where
  "widest_line L data = foldr max (map (display_width L) (split_lines data)) 0"

text \<open>The same with a first line that starts in column \<open>col\<close>, for the proofs.\<close>

definition widest_from :: "Locale \<Rightarrow> nat \<Rightarrow> byte list \<Rightarrow> nat" where
  "widest_from L col data =
     (case split_lines data of
        [] \<Rightarrow> col
      | l # ls \<Rightarrow> max (foldl (advance L) col l) (foldr max (map (display_width L) ls) 0))"

section \<open>The driver\<close>

definition EXIT_SUCCESS :: int where
  "EXIT_SUCCESS = 0"

definition EXIT_FAILURE :: int where
  "EXIT_FAILURE = 1"

text \<open>
  What the run depends on besides its arguments: the locale, what the file system says
  of a path, and the text of the system error that \<^verbatim>\<open>read_err\<close> prints for \<^verbatim>\<open>errno\<close>.
  \<^verbatim>\<open>fs::is_directory\<close> and \<^verbatim>\<open>fs::is_regular_file\<close> find a path to be a directory, a
  regular file (with the stream that opening it gives) or neither, for instance because
  nothing exists there. They are the overloads that throw \<^verbatim>\<open>filesystem_error\<close> when the
  status of the path cannot be determined (a name that is too long, a loop of symbolic
  links, a directory on the way that may not be searched): that is \<open>LookupFails\<close>.
\<close>

datatype path_kind = Directory | RegularFile istream | Other | LookupFails

text \<open>
  How the process ends: \<^verbatim>\<open>main\<close> returns a status, or an exception that nothing
  catches reaches \<^verbatim>\<open>std::terminate\<close>, which aborts the process. (What the runtime
  prints on that occasion does not go through \<^verbatim>\<open>std::cerr\<close> and is not recorded.)
\<close>

datatype exit_status = Exit int | Terminated

record Env =
  loc :: Locale
  fs :: "string \<Rightarrow> path_kind"
  errno_message :: string

text \<open>
  The streams of the process: \<^verbatim>\<open>std::cin\<close>, and what has been written to \<^verbatim>\<open>std::cout\<close> and
  \<^verbatim>\<open>std::cerr\<close>, one entry per line written.
\<close>

record Process =
  cin :: istream
  cout :: "string list"
  cerr :: "string list"

text \<open>\<^verbatim>\<open>help\<close>: the usage text, with \<^verbatim>\<open>argv[0]\<close> filled in.\<close>

definition help_text :: "string \<Rightarrow> string" where
  "help_text argv0 =
     ''USAGE\<newline>'' @
     ''    '' @ argv0 @ '' [OPTION]... [FILE]...\<newline>'' @
     ''\<newline>'' @
     ''NAME\<newline>'' @
     ''    '' @ argv0 @ '' - word, line, and byte count.\<newline>'' @
     ''\<newline>'' @
     ''DESCRIPTION\<newline>'' @
     ''    Print line, word, and byte counts for each FILE, and a total line if more\<newline>'' @
     ''    than one FILE is specified. A line is defined as a string of characters\<newline>'' @
     ''    delimited by a <newline> character, and a word is defined as a non-zero-\<newline>'' @
     ''    -length sequence of printable characters delimited by white space. \<newline>'' @
     ''\<newline>'' @
     ''    When an option is specified, '' @ argv0 @ '' only reports the information requested by\<newline>'' @
     ''    that option. The default action is equivalent to all the flags -clw having\<newline>'' @
     ''    been specified.\<newline>'' @
     ''\<newline>'' @
     ''    When no FILE, or when FILE is -, read standard input.\<newline>'' @
     ''\<newline>'' @
     ''    If more than one input file is specified, a line of cumulative counts for\<newline>'' @
     ''    all the files is displayed on a separate line after the output for the last\<newline>'' @
     ''    file.\<newline>'' @
     ''\<newline>'' @
     ''    By default, the standard output containts a line for each input file of the \<newline>'' @
     ''    form:\<newline>'' @
     ''        lines    words    bytes    file_name\<newline>'' @
     ''\<newline>'' @
     ''OPTION:\<newline>'' @
     ''    -c, --bytes                 print the byte counts.\<newline>'' @
     ''    -l, --lines                 print the newline counts.\<newline>'' @
     ''    -L, --max-line-length       print the maximum display width.\<newline>'' @
     ''    -w, --words                 print the word counts.\<newline>'' @
     ''    -h, --help                  display this help and exit.\<newline>'' @
     ''\<newline>'' @
     ''EXIT STATUS:\<newline>'' @
     ''    The '' @ argv0 @ '' utility exits with 0 on success, or elsewise if an error occurs.\<newline>''"

definition usage_err :: "string \<Rightarrow> string" where
  "usage_err argv0 =
     ''The syntax of the command is incorrect.\<newline>Try '' @ argv0 @
     '' -h for more information.\<newline>''"

definition read_err :: "Env \<Rightarrow> string \<Rightarrow> string" where
  "read_err E file =
     ''error: failed to process '' @ [CHR 0x27] @ file @ [CHR 0x27] @ '': '' @
     errno_message E @ ''\<newline>''"

text \<open>
  \<^verbatim>\<open>chkd_add\<close>: \<open>None\<close> is the result \<^verbatim>\<open>false\<close>, which leaves \<^verbatim>\<open>res\<close> as it was; \<open>Some\<close> is
  \<^verbatim>\<open>true\<close> with the value stored in \<^verbatim>\<open>res\<close>.
\<close>

definition chkd_add :: "uintmax \<Rightarrow> uintmax \<Rightarrow> uintmax option" where
  "chkd_add a b = (if a + b < a then None else Some (a + b))"

text \<open>
  \<^verbatim>\<open>std::format("  {:>7L}", n)\<close>: two spaces, then the locale's rendering of the number,
  padded with spaces on the left to at least seven characters.
\<close>

definition right_align :: "nat \<Rightarrow> string \<Rightarrow> string" where
  "right_align w s = replicate (w - length s) CHR '' '' @ s"

definition format_field :: "Locale \<Rightarrow> uintmax \<Rightarrow> string" where
  "format_field L n = ''  '' @ right_align 7 (format_L L n)"

text \<open>\<^verbatim>\<open>write_counts\<close>: the text of the line written; \<open>None\<close> is the null \<^verbatim>\<open>file\<close>.\<close>

definition write_counts :: "Locale \<Rightarrow> Options \<Rightarrow> FileStatistics \<Rightarrow> string option \<Rightarrow> string" where
  "write_counts L options stats file =
     (if count_lines options then format_field L (lines stats) else []) @
     (if count_words options then format_field L (words stats) else []) @
     (if count_bytes options then format_field L (bytes stats) else []) @
     (if count_max_line_length options then format_field L (max_line_length stats) else []) @
     (case file of None \<Rightarrow> [] | Some name \<Rightarrow> ''  '' @ name) @
     ''\<newline>''"

text \<open>
  \<^verbatim>\<open>parse_options\<close>, over the values that successive calls of \<^verbatim>\<open>getopt_long\<close> return
  before it returns -1 (a question mark for an option it does not know).
\<close>

fun parse_options_loop :: "char list \<Rightarrow> Options \<Rightarrow> ParseOptionsError + Options" where
  "parse_options_loop [] options = Inr options"
| "parse_options_loop (c # cs) options =
     (if c = CHR ''c'' then parse_options_loop cs (options\<lparr>count_bytes := True\<rparr>)
      else if c = CHR ''l'' then parse_options_loop cs (options\<lparr>count_lines := True\<rparr>)
      else if c = CHR ''L'' then
        parse_options_loop cs (options\<lparr>count_max_line_length := True\<rparr>)
      else if c = CHR ''w'' then parse_options_loop cs (options\<lparr>count_words := True\<rparr>)
      else if c = CHR ''h'' then Inl help_requested
      else Inl unknown_option)"

definition parse_options :: "char list \<Rightarrow> ParseOptionsError + Options" where
  "parse_options flags = parse_options_loop flags no_options"

text \<open>
  \<^verbatim>\<open>wc_file\<close> with a running total (the five-argument overload). It returns the exit
  status, the stream after the pass, the total and the process.
\<close>

definition wc_file ::
  "Env \<Rightarrow> Options \<Rightarrow> istream \<Rightarrow> string \<Rightarrow> int \<Rightarrow> FileStatistics \<Rightarrow> Process
     \<Rightarrow> int \<times> istream \<times> FileStatistics \<times> Process" where
  "wc_file E options strm file nfiles total_stats p =
     (case wc (loc E) options strm of
        (Inl e, strm') \<Rightarrow>
          (EXIT_SUCCESS, strm', total_stats, p\<lparr>cerr := cerr p @ [read_err E file]\<rparr>)
      | (Inr stats, strm') \<Rightarrow>
          (let p1 = p\<lparr>cout := cout p @ [write_counts (loc E) options stats (Some file)]\<rparr>
           in if 1 < nfiles then
                (let t1 = total_stats\<lparr>max_line_length :=
                            max (max_line_length stats) (max_line_length total_stats)\<rparr>
                 in case chkd_add (lines t1) (lines stats) of
                      None \<Rightarrow>
                        (EXIT_FAILURE, strm', t1,
                         p1\<lparr>cerr := cerr p1 @ [''Error: integer overflow in total lines.\<newline>'']\<rparr>)
                    | Some l \<Rightarrow>
                        (let t2 = t1\<lparr>lines := l\<rparr>
                         in case chkd_add (words t2) (words stats) of
                              None \<Rightarrow>
                                (EXIT_FAILURE, strm', t2,
                                 p1\<lparr>cerr := cerr p1 @
                                    [''Error: integer overflow in total words.\<newline>'']\<rparr>)
                            | Some w \<Rightarrow>
                                (let t3 = t2\<lparr>words := w\<rparr>
                                 in case chkd_add (bytes t3) (bytes stats) of
                                      None \<Rightarrow>
                                        (EXIT_FAILURE, strm', t3,
                                         p1\<lparr>cerr := cerr p1 @
                                            [''Error: integer overflow in total bytes.\<newline>'']\<rparr>)
                                    | Some b \<Rightarrow>
                                        (EXIT_SUCCESS, strm', t3\<lparr>bytes := b\<rparr>, p1))))
              else (EXIT_SUCCESS, strm', total_stats, p1)))"

text \<open>
  \<^verbatim>\<open>wc_file\<close> for the sole standard input (the three-argument overload): the line has
  no name, and a read fault is the exit status.
\<close>

definition wc_file_single ::
  "Env \<Rightarrow> Options \<Rightarrow> istream \<Rightarrow> string \<Rightarrow> Process \<Rightarrow> int \<times> istream \<times> Process" where
  "wc_file_single E options strm file p =
     (case wc (loc E) options strm of
        (Inl e, strm') \<Rightarrow> (EXIT_FAILURE, strm', p\<lparr>cerr := cerr p @ [read_err E file]\<rparr>)
      | (Inr stats, strm') \<Rightarrow>
          (EXIT_SUCCESS, strm',
           p\<lparr>cout := cout p @ [write_counts (loc E) options stats None]\<rparr>))"

text \<open>
  \<^verbatim>\<open>std::cin\<close> as the loop over the arguments reads it. There it is still synchronised
  with stdio (\<^verbatim>\<open>main\<close> switches that off only on the path without arguments), so it
  reads through \<^verbatim>\<open>fread\<close>, where a failing read is a short count like the end of the
  input: the stream gets \<^verbatim>\<open>eofbit\<close> and \<^verbatim>\<open>failbit\<close>, never \<^verbatim>\<open>badbit\<close>.
\<close>

definition stdio_synced :: "istream \<Rightarrow> istream" where
  "stdio_synced strm = strm\<lparr>faulty := False\<rparr>"

text \<open>
  The \<^verbatim>\<open>for\<close> loop of \<^verbatim>\<open>main\<close> over the positional arguments. \<open>None\<close> is its normal
  end, \<open>Some (Exit rc)\<close> the early \<^verbatim>\<open>return\<close> from inside the loop, and
  \<open>Some Terminated\<close> the exception of a failing lookup, which \<^verbatim>\<open>main\<close> does not catch.
\<close>

fun main_loop ::
  "Env \<Rightarrow> Options \<Rightarrow> int \<Rightarrow> string list \<Rightarrow> FileStatistics \<Rightarrow> Process
     \<Rightarrow> exit_status option \<times> FileStatistics \<times> Process" where
  "main_loop E options nfiles [] total_stats p = (None, total_stats, p)"
| "main_loop E options nfiles (arg # args) total_stats p =
     (case fs E arg of
        Directory \<Rightarrow>
          main_loop E options nfiles args total_stats
            (p\<lparr>cerr := cerr p @ [''wc: '' @ arg @ '': Is a directory.\<newline>''],
               cout := cout p @ [write_counts (loc E) options zero_stats (Some arg)]\<rparr>)
      | RegularFile file \<Rightarrow>
          (case wc_file E options file arg nfiles total_stats p of
             (rc, file', total_stats', p') \<Rightarrow>
               if rc = EXIT_FAILURE then (Some (Exit EXIT_FAILURE), total_stats', p')
               else main_loop E options nfiles args total_stats' p')
      | Other \<Rightarrow>
          if arg = ''-'' then
            (case wc_file E options (stdio_synced (cin p)) arg nfiles total_stats p of
               (rc, cin', total_stats', p') \<Rightarrow>
                 if rc = EXIT_FAILURE
                 then (Some (Exit EXIT_FAILURE), total_stats', p'\<lparr>cin := cin'\<rparr>)
                 else main_loop E options nfiles args total_stats' (p'\<lparr>cin := cin'\<rparr>))
          else
            main_loop E options nfiles args total_stats
              (p\<lparr>cerr := cerr p @ [''wc: '' @ arg @ '': No such file or directory.\<newline>'']\<rparr>)
      | LookupFails \<Rightarrow> (Some Terminated, total_stats, p))"

text \<open>The default of \<^verbatim>\<open>main\<close>: without any counting flag, lines, words and bytes.\<close>

definition default_options :: "Options \<Rightarrow> Options" where
  "default_options options =
     (if \<not> (count_lines options \<or> count_words options \<or> count_bytes options \<or>
             count_max_line_length options)
      then options\<lparr>count_lines := True, count_words := True, count_bytes := True\<rparr>
      else options)"

text \<open>
  \<^verbatim>\<open>main\<close>, given \<^verbatim>\<open>argv[0]\<close>, the option characters that \<^verbatim>\<open>getopt_long\<close> finds and the
  positional arguments it leaves (\<^verbatim>\<open>argv[optind]\<close> onwards).
\<close>

definition main ::
  "Env \<Rightarrow> string \<Rightarrow> char list \<Rightarrow> string list \<Rightarrow> Process \<Rightarrow> exit_status \<times> Process" where
  "main E argv0 flags args p =
     (case parse_options flags of
        Inl help_requested \<Rightarrow> (Exit EXIT_SUCCESS, p\<lparr>cout := cout p @ [help_text argv0]\<rparr>)
      | Inl unknown_option \<Rightarrow>
          (Exit EXIT_FAILURE, p\<lparr>cerr := cerr p @ [usage_err argv0]\<rparr>)
      | Inr parsed \<Rightarrow>
          (let options = default_options parsed
           in if args = [] then
                (case wc_file_single E options (cin p) ''stdin'' p of
                   (rc, cin', p') \<Rightarrow> (Exit rc, p'\<lparr>cin := cin'\<rparr>))
              else
                (let nfiles = (if 0 < length args then int (length args) else 1)
                 in case main_loop E options nfiles args zero_stats p of
                      (Some ended, total_stats, p') \<Rightarrow> (ended, p')
                    | (None, total_stats, p') \<Rightarrow>
                        (Exit 0, if 1 < nfiles
                            then p'\<lparr>cout := cout p' @
                                   [write_counts (loc E) options total_stats (Some ''total'')]\<rparr>
                            else p'))))"

subsection \<open>Concrete runs\<close>

text \<open>
  A small world for concrete runs: in the "C" locale, \<open>a\<close> is a file holding abc,
  \<open>b\<close> a file holding ab, \<open>d\<close> a directory, \<open>huge\<close> a file of 2^63 - 1 zero bytes
  (the largest size a file offset can express), \<open>bad\<close> a file whose reading fails
  after two bytes, the lookup of a name of more than 255 characters fails (such a name
  is too long for any file to have), and nothing exists at any other path; standard
  input is empty.
\<close>

definition example_env :: Env where
  "example_env =
     \<lparr>loc = C_locale,
      fs = (\<lambda>path. if 255 < length path then LookupFails
                   else if path = ''a'' then RegularFile (open_stream (bytes_of ''abc''))
                   else if path = ''b'' then RegularFile (open_stream (bytes_of ''ab''))
                   else if path = ''d'' then Directory
                   else if path = ''huge''
                     then RegularFile (open_stream (replicate 9223372036854775807 0))
                   else if path = ''bad'' then RegularFile (faulty_stream (bytes_of ''xy''))
                   else Other),
      errno_message = ''Input/output error''\<rparr>"

definition example_process :: Process where
  "example_process = \<lparr>cin = open_stream [], cout = [], cerr = []\<rparr>"

text \<open>A name of 256 characters.\<close>

definition long_name :: string where
  "long_name = replicate 256 CHR ''x''"


text \<open>
  The counters of a line in the order of the output: lines, words, bytes, maximal line
  length, each present when its flag is set.
\<close>

definition requested_fields :: "Options \<Rightarrow> FileStatistics \<Rightarrow> uintmax list" where
  "requested_fields options stats =
     (if count_lines options then [lines stats] else []) @
     (if count_words options then [words stats] else []) @
     (if count_bytes options then [bytes stats] else []) @
     (if count_max_line_length options then [max_line_length stats] else [])"

text \<open>
  \<open>t\<close> is \<open>s\<close> right-aligned in a field of at least \<open>w\<close> characters: \<open>t\<close> ends with
  \<open>s\<close>, what precedes is spaces, and \<open>t\<close> has \<open>w\<close> characters unless \<open>s\<close> is longer.
\<close>

definition right_aligned_in :: "nat \<Rightarrow> string \<Rightarrow> string \<Rightarrow> bool" where
  "right_aligned_in w s t \<longleftrightarrow>
     length t = max w (length s) \<and>
     drop (length t - length s) t = s \<and>
     take (length t - length s) t = replicate (length t - length s) CHR '' ''"

section \<open>Properties\<close>

subsection \<open>The chunked loop reads the whole stream\<close>

lemma classify_add_bytes:
  "classify L c (add_bytes n s) = add_bytes n (classify L c s)"
  by (cases s) (simp add: add_bytes_def Let_def)

lemma scan_chunk_add_bytes:
  "scan_chunk L xs (add_bytes n s) = add_bytes n (scan_chunk L xs s)"
  unfolding scan_chunk_def
  by (induction xs arbitrary: s) (simp_all add: classify_add_bytes)

lemma add_bytes_add_bytes:
  "add_bytes m (add_bytes n s) = add_bytes (n + m) s"
  by (cases s) (simp add: add_bytes_def add.assoc)

lemma scan_chunk_append:
  "scan_chunk L (xs @ ys) s = scan_chunk L ys (scan_chunk L xs s)"
  by (simp add: scan_chunk_def)

lemma consume_Nil: "consume L options [] s = s"
  by (cases s) (simp add: consume_def scan_chunk_def add_bytes_def)

lemma consume_append:
  "consume L options (xs @ ys) s = consume L options ys (consume L options xs s)"
  by (simp add: consume_def scan_chunk_append scan_chunk_add_bytes add_bytes_add_bytes)

lemma wc_loop_not_ok: "\<not> is_ok strm \<Longrightarrow> wc_loop L options strm s = (strm, s)"
  by (simp add: wc_loop.simps)

lemma wc_loop_drains:
  "\<not> eofbit strm \<Longrightarrow> \<not> failbit strm \<Longrightarrow> \<not> badbit strm \<Longrightarrow>
   wc_loop L options strm s = (drained strm, consume L options (pending strm) s)"
proof (induction L options strm s rule: wc_loop.induct)
  case (1 L options strm s)
  have ok: "is_ok strm"
    using "1.prems" by (simp add: is_ok_def)
  show ?case
  proof (cases "bufsize \<le> length (pending strm)")
    case True
    define buf where "buf = take bufsize (pending strm)"
    define strm' where "strm' = strm\<lparr>pending := drop bufsize (pending strm)\<rparr>"
    have rd: "is_read bufsize strm = (buf, strm')"
      using "1.prems" True by (simp add: is_read_def buf_def strm'_def)
    have ne: "length buf \<noteq> 0"
      using True by (simp add: buf_def bufsize_def)
    have bits: "\<not> eofbit strm'" "\<not> failbit strm'" "\<not> badbit strm'"
      using "1.prems" by (simp_all add: strm'_def)
    have dr: "drained strm' = drained strm"
      by (simp add: drained_def strm'_def)
    have split: "pending strm = buf @ pending strm'"
      by (simp add: buf_def strm'_def)
    have "wc_loop L options strm s = wc_loop L options strm' (consume L options buf s)"
      using ok rd ne by (subst wc_loop.simps) (simp add: consume_def)
    also have "\<dots> = (drained strm', consume L options (pending strm') (consume L options buf s))"
      using "1.IH" [OF _ rd [symmetric] ne bits] ok
      by (simp add: consume_def)
    finally show ?thesis
      by (simp add: dr split consume_append)
  next
    case False
    have rd: "is_read bufsize strm = (pending strm, drained strm)"
      using "1.prems" False by (simp add: is_read_def drained_def)
    have notok: "\<not> is_ok (drained strm)"
      by (simp add: drained_def is_ok_def)
    show ?thesis
    proof (cases "pending strm = []")
      case True
      then show ?thesis
        using ok rd by (subst wc_loop.simps) (simp add: consume_Nil)
    next
      case False
      then show ?thesis
        using ok rd wc_loop_not_ok [OF notok]
        by (subst wc_loop.simps) (simp add: consume_def)
    qed
  qed
qed

subsection \<open>The result of a pass over a cleanly ending stream\<close>

lemma wc_open_stream:
  "wc L options (open_stream data) =
     (case consume L options data (zero_stats, False, 0) of
        (stats, in_word, line_pos) \<Rightarrow>
          (Inr (stats\<lparr>max_line_length := max line_pos (max_line_length stats)\<rparr>),
           drained (open_stream data)))"
proof -
  have "wc_loop L options (open_stream data) (zero_stats, False, 0) =
          (drained (open_stream data),
           consume L options (pending (open_stream data)) (zero_stats, False, 0))"
    by (rule wc_loop_drains) (simp_all add: open_stream_def)
  then show ?thesis
    by (simp add: wc_def open_stream_def drained_def split: prod.split)
qed

lemma classify_bytes: "bytes (fst (classify L c s)) = bytes (fst s)"
  by (cases s) (simp add: Let_def)

lemma scan_chunk_bytes: "bytes (fst (scan_chunk L xs s)) = bytes (fst s)"
  unfolding scan_chunk_def
  by (induction xs arbitrary: s) (simp_all add: classify_bytes)

lemma consume_bytes:
  "bytes (fst (consume L options xs s)) = bytes (fst s) + of_nat (length xs)"
  by (cases s) (simp add: consume_def scan_chunk_bytes add_bytes_def)

lemma unat_of_nat_uintmax: "n < 2 ^ 64 \<Longrightarrow> unat (of_nat n :: uintmax) = n"
  by (simp add: unat_of_nat)

lemma classify_lines:
  "lines (fst (classify L c s)) = lines (fst s) + (if c = 0x0A then 1 else 0)"
  by (cases s) (simp add: Let_def)

lemma scan_chunk_lines:
  "lines (fst (scan_chunk L xs s)) = lines (fst s) + of_nat (count_list xs 0x0A)"
  unfolding scan_chunk_def
  by (induction xs arbitrary: s) (simp_all add: classify_lines)

lemma isspace_ascii_iff:
  "isspace_ascii c \<longleftrightarrow> c = 0x09 \<or> c = 0x0A \<or> c = 0x0B \<or> c = 0x0C \<or> c = 0x0D \<or> c = 0x20"
proof
  assume "isspace_ascii c"
  then have "(9 \<le> unat c \<and> unat c \<le> 13) \<or> c = 0x20"
    by (simp add: isspace_ascii_def word_le_nat_alt)
  then have "unat c = 9 \<or> unat c = 10 \<or> unat c = 11 \<or> unat c = 12 \<or> unat c = 13 \<or> c = 0x20"
    by arith
  moreover have "c = of_nat (unat c)"
    by simp
  ultimately show "c = 0x09 \<or> c = 0x0A \<or> c = 0x0B \<or> c = 0x0C \<or> c = 0x0D \<or> c = 0x20"
    by (metis of_nat_numeral)
next
  assume "c = 0x09 \<or> c = 0x0A \<or> c = 0x0B \<or> c = 0x0C \<or> c = 0x0D \<or> c = 0x20"
  then show "isspace_ascii c"
    by (auto simp: isspace_ascii_def)
qed

lemma run_snoc:
  "maximal_runs P (xs @ [x]) =
     maximal_runs P xs + (if P x \<and> (xs = [] \<or> \<not> P (last xs)) then 1 else 0)"
proof -
  have old: "filter (\<lambda>i. P ((xs @ [x]) ! i) \<and> (i = 0 \<or> \<not> P ((xs @ [x]) ! (i - 1)))) [0..<length xs]
           = filter (\<lambda>i. P (xs ! i) \<and> (i = 0 \<or> \<not> P (xs ! (i - 1)))) [0..<length xs]"
    by (rule filter_cong) (auto simp: nth_append)
  have new: "(length xs = 0 \<or> \<not> P ((xs @ [x]) ! (length xs - 1))) \<longleftrightarrow> (xs = [] \<or> \<not> P (last xs))"
    by (cases "xs = []") (simp_all add: nth_append last_conv_nth)
  show ?thesis
    using new old by (simp add: maximal_runs_def run_starts_def)
qed

lemma maximal_runs_Nil: "maximal_runs P [] = 0"
  by (simp add: maximal_runs_def run_starts_def)

lemma maximal_runs_le_length: "maximal_runs P xs \<le> length xs"
proof -
  have "length (run_starts P xs) \<le> length [0..<length xs]"
    unfolding run_starts_def by (rule length_filter_le)
  then show ?thesis
    by (simp add: maximal_runs_def)
qed

lemma classify_words_ascii:
  assumes loc: "isspace L = isspace_ascii"
    and cl: "classify L x (st1, iw1, lp1) = (st, iw, lp)"
  shows "words st = words st1 + (if \<not> iw1 \<and> \<not> isspace_ascii x then 1 else 0)"
    and "iw = (\<not> isspace_ascii x)"
proof -
  show "words st = words st1 + (if \<not> iw1 \<and> \<not> isspace_ascii x then 1 else 0)"
  proof (cases "isspace_ascii x")
    case True
    then have "x = 0x09 \<or> x = 0x0A \<or> x = 0x0B \<or> x = 0x0C \<or> x = 0x0D \<or> x = 0x20"
      by (simp add: isspace_ascii_iff)
    with cl True show ?thesis
      by (auto split: if_splits)
  next
    case False
    then have "x \<noteq> 0x09 \<and> x \<noteq> 0x0A \<and> x \<noteq> 0x0B \<and> x \<noteq> 0x0C \<and> x \<noteq> 0x0D \<and> x \<noteq> 0x20"
      by (simp add: isspace_ascii_iff)
    with cl False loc show ?thesis
      by (auto simp: Let_def)
  qed
  show "iw = (\<not> isspace_ascii x)"
  proof (cases "isspace_ascii x")
    case True
    then have "x = 0x09 \<or> x = 0x0A \<or> x = 0x0B \<or> x = 0x0C \<or> x = 0x0D \<or> x = 0x20"
      by (simp add: isspace_ascii_iff)
    with cl True show ?thesis
      by (auto split: if_splits)
  next
    case False
    then have "x \<noteq> 0x09 \<and> x \<noteq> 0x0A \<and> x \<noteq> 0x0B \<and> x \<noteq> 0x0C \<and> x \<noteq> 0x0D \<and> x \<noteq> 0x20"
      by (simp add: isspace_ascii_iff)
    with cl False loc show ?thesis
      by (auto simp: Let_def)
  qed
qed

lemma scan_chunk_words:
  assumes loc: "isspace L = isspace_ascii"
  shows "scan_chunk L xs (st0, False, lp0) = (st, iw, lp) \<Longrightarrow>
         words st = words st0 + of_nat (maximal_runs (\<lambda>c. \<not> isspace_ascii c) xs) \<and>
         iw = (xs \<noteq> [] \<and> \<not> isspace_ascii (last xs))"
proof (induction xs arbitrary: st iw lp rule: rev_induct)
  case Nil
  then show ?case
    by (simp add: scan_chunk_def maximal_runs_Nil)
next
  case (snoc x xs)
  obtain st1 iw1 lp1 where mid: "scan_chunk L xs (st0, False, lp0) = (st1, iw1, lp1)"
    by (cases "scan_chunk L xs (st0, False, lp0)") auto
  from snoc.IH [OF mid]
  have w1: "words st1 = words st0 + of_nat (maximal_runs (\<lambda>c. \<not> isspace_ascii c) xs)"
    and i1: "iw1 = (xs \<noteq> [] \<and> \<not> isspace_ascii (last xs))"
    by simp_all
  from snoc.prems mid have cl: "classify L x (st1, iw1, lp1) = (st, iw, lp)"
    by (simp add: scan_chunk_def)
  from classify_words_ascii [OF loc cl] w1 i1 show ?case
    by (simp add: run_snoc)
qed

text \<open>
  Claim C3. For every input that ends cleanly and every selection of flags, \<^verbatim>\<open>wc\<close>
  succeeds and its \<^verbatim>\<open>bytes\<close> counter is the length of the input: as a 64-bit counter
  in general, and as a number whenever the length is representable in
  \<^verbatim>\<open>std::uintmax_t\<close>. Neither the flags nor the classification of the bytes enter.
\<close>

theorem wc_bytes_exact:
  "\<exists>stats. fst (wc L options (open_stream data)) = Inr stats \<and>
           bytes stats = of_nat (length data) \<and>
           (length data < 2 ^ 64 \<longrightarrow> unat (bytes stats) = length data)"
proof -
  obtain st iw lp where c: "consume L options data (zero_stats, False, 0) = (st, iw, lp)"
    by (cases "consume L options data (zero_stats, False, 0)") auto
  have "bytes (fst (consume L options data (zero_stats, False, 0))) = of_nat (length data)"
    by (simp add: consume_bytes zero_stats_def)
  with c have b: "bytes st = of_nat (length data)"
    by simp
  show ?thesis
    using c b by (simp add: wc_open_stream unat_of_nat_uintmax)
qed

theorem wc_bytes_exact_witness:
  "length (bytes_of ''ab cd'') < 2 ^ 64 \<and>
   (\<exists>stats. fst (wc C_locale
                  \<lparr>count_bytes = True, count_lines = False, count_words = False,
                   count_max_line_length = False\<rparr>
                  (open_stream (bytes_of ''ab cd''))) = Inr stats \<and>
            unat (bytes stats) = 5)"
proof -
  have len: "length (bytes_of ''ab cd'') = 5"
    by (simp add: bytes_of_def)
  show ?thesis
    using wc_bytes_exact [of C_locale
      "\<lparr>count_bytes = True, count_lines = False, count_words = False,
        count_max_line_length = False\<rparr>" "bytes_of ''ab cd''"]
    unfolding len by auto
qed

lemma wc_scanned:
  assumes ws: "wants_scan options"
    and sc: "scan_chunk L data (zero_stats, False, 0) = (st, iw, lp)"
  shows "fst (wc L options (open_stream data)) =
           Inr (st\<lparr>bytes := of_nat (length data),
                   max_line_length := max lp (max_line_length st)\<rparr>)"
proof -
  have "bytes (fst (scan_chunk L data (zero_stats, False, 0))) = 0"
    by (simp add: scan_chunk_bytes zero_stats_def)
  with sc have b0: "bytes st = 0"
    by simp
  have "consume L options data (zero_stats, False, 0) =
          add_bytes (length data) (scan_chunk L data (zero_stats, False, 0))"
    using ws by (simp add: consume_def scan_chunk_add_bytes)
  also have "\<dots> = (st\<lparr>bytes := of_nat (length data)\<rparr>, iw, lp)"
    using sc b0 by (simp add: add_bytes_def)
  finally show ?thesis
    by (simp add: wc_open_stream)
qed

text \<open>
  Claim C2. With line counting requested, the \<^verbatim>\<open>lines\<close> counter of a cleanly ending
  input is the number of 0x0A bytes in it, wherever they stand; no other byte (carriage
  return and form feed included) is counted.
\<close>

theorem wc_lines_count_newlines:
  assumes "count_lines options"
  shows "\<exists>stats. fst (wc L options (open_stream data)) = Inr stats \<and>
           lines stats = of_nat (count_list data 0x0A) \<and>
           (length data < 2 ^ 64 \<longrightarrow> unat (lines stats) = count_list data 0x0A)"
proof -
  obtain st iw lp where sc: "scan_chunk L data (zero_stats, False, 0) = (st, iw, lp)"
    by (cases "scan_chunk L data (zero_stats, False, 0)") auto
  have ws: "wants_scan options"
    using assms by (simp add: wants_scan_def)
  have "lines (fst (scan_chunk L data (zero_stats, False, 0))) = of_nat (count_list data 0x0A)"
    by (simp add: scan_chunk_lines zero_stats_def)
  with sc have l: "lines st = of_nat (count_list data 0x0A)"
    by simp
  have le: "count_list data 0x0A \<le> length data"
    by (rule count_le_length)
  have "length data < 2 ^ 64 \<longrightarrow> unat (lines st) = count_list data 0x0A"
  proof
    assume "length data < 2 ^ 64"
    with le have "count_list data 0x0A < 2 ^ 64"
      by (rule le_less_trans)
    then show "unat (lines st) = count_list data 0x0A"
      by (simp only: l unat_of_nat_uintmax)
  qed
  with l show ?thesis
    by (simp add: wc_scanned [OF ws sc])
qed

theorem wc_lines_count_newlines_witness:
  "count_lines \<lparr>count_bytes = False, count_lines = True, count_words = False,
                count_max_line_length = False\<rparr> \<and>
   length (bytes_of ''a\<newline>b\<newline>c'') < 2 ^ 64 \<and>
   (\<exists>stats. fst (wc C_locale
                  \<lparr>count_bytes = False, count_lines = True, count_words = False,
                   count_max_line_length = False\<rparr>
                  (open_stream (bytes_of ''a\<newline>b\<newline>c''))) = Inr stats \<and>
            unat (lines stats) = 2)"
proof -
  have len: "length (bytes_of ''a\<newline>b\<newline>c'') = 5"
    and cnt: "count_list (bytes_of ''a\<newline>b\<newline>c'') 0x0A = 2"
    by (simp_all add: bytes_of_def)
  show ?thesis
    using wc_lines_count_newlines [of
      "\<lparr>count_bytes = False, count_lines = True, count_words = False,
        count_max_line_length = False\<rparr>" C_locale "bytes_of ''a\<newline>b\<newline>c''"]
    unfolding len cnt by auto
qed

text \<open>
  Claim C1. Under the ASCII classification of whitespace and with word counting
  requested, the \<^verbatim>\<open>words\<close> counter of a cleanly ending input is the number of maximal
  runs of non-whitespace bytes; the input of two spaces, hello, three spaces, world, two
  spaces has 2 words.
\<close>

theorem wc_words_maximal_runs:
  assumes loc: "isspace L = isspace_ascii" and cw: "count_words options"
  shows "(length data < 2 ^ 64 \<longrightarrow>
           (\<exists>stats. fst (wc L options (open_stream data)) = Inr stats \<and>
              unat (words stats) = maximal_runs (\<lambda>c. \<not> isspace_ascii c) data)) \<and>
         (\<exists>stats. fst (wc L options (open_stream (bytes_of ''  hello   world  ''))) = Inr stats \<and>
              words stats = 2)"
proof -
  have ws: "wants_scan options"
    using cw by (simp add: wants_scan_def)
  have gen: "\<exists>st iw lp. scan_chunk L xs (zero_stats, False, 0) = (st, iw, lp) \<and>
        fst (wc L options (open_stream xs)) =
           Inr (st\<lparr>bytes := of_nat (length xs),
                   max_line_length := max lp (max_line_length st)\<rparr>) \<and>
        words st = of_nat (maximal_runs (\<lambda>c. \<not> isspace_ascii c) xs)" for xs
  proof -
    obtain st iw lp where sc: "scan_chunk L xs (zero_stats, False, 0) = (st, iw, lp)"
      by (cases "scan_chunk L xs (zero_stats, False, 0)") auto
    from scan_chunk_words [OF loc sc]
    have "words st = of_nat (maximal_runs (\<lambda>c. \<not> isspace_ascii c) xs)"
      by (simp add: zero_stats_def)
    with sc wc_scanned [OF ws sc] show ?thesis
      by blast
  qed
  have first: "length data < 2 ^ 64 \<longrightarrow>
           (\<exists>stats. fst (wc L options (open_stream data)) = Inr stats \<and>
              unat (words stats) = maximal_runs (\<lambda>c. \<not> isspace_ascii c) data)"
  proof
    assume len: "length data < 2 ^ 64"
    have "maximal_runs (\<lambda>c. \<not> isspace_ascii c) data \<le> length data"
      by (rule maximal_runs_le_length)
    with len have "maximal_runs (\<lambda>c. \<not> isspace_ascii c) data < 2 ^ 64"
      by simp
    then have "unat (of_nat (maximal_runs (\<lambda>c. \<not> isspace_ascii c) data) :: uintmax) =
               maximal_runs (\<lambda>c. \<not> isspace_ascii c) data"
      by (rule unat_of_nat_uintmax)
    with gen [of data] show "\<exists>stats. fst (wc L options (open_stream data)) = Inr stats \<and>
              unat (words stats) = maximal_runs (\<lambda>c. \<not> isspace_ascii c) data"
      by auto
  qed
  have ex: "maximal_runs (\<lambda>c. \<not> isspace_ascii c) (bytes_of ''  hello   world  '') = 2"
    by (simp add: maximal_runs_def run_starts_def bytes_of_def isspace_ascii_def)
  have second: "\<exists>stats. fst (wc L options (open_stream (bytes_of ''  hello   world  ''))) = Inr stats \<and>
              words stats = 2"
    using gen [of "bytes_of ''  hello   world  ''"] ex by auto
  from first second show ?thesis
    by blast
qed

theorem wc_words_maximal_runs_witness:
  "isspace C_locale = isspace_ascii \<and>
   count_words \<lparr>count_bytes = False, count_lines = False, count_words = True,
                count_max_line_length = False\<rparr> \<and>
   length (bytes_of ''a bc  d'') < 2 ^ 64 \<and>
   (\<exists>stats. fst (wc C_locale
                  \<lparr>count_bytes = False, count_lines = False, count_words = True,
                   count_max_line_length = False\<rparr>
                  (open_stream (bytes_of ''a bc  d''))) = Inr stats \<and>
            unat (words stats) = 3)"
proof -
  have loc: "isspace C_locale = isspace_ascii"
    by (simp add: C_locale_def)
  have cw: "count_words \<lparr>count_bytes = False, count_lines = False, count_words = True,
                count_max_line_length = False\<rparr>"
    by simp
  have len: "length (bytes_of ''a bc  d'') = 7"
    by (simp add: bytes_of_def)
  have runs: "maximal_runs (\<lambda>c. \<not> isspace_ascii c) (bytes_of ''a bc  d'') = 3"
    by (simp add: maximal_runs_def run_starts_def bytes_of_def isspace_ascii_def)
  show ?thesis
    using wc_words_maximal_runs [OF loc cw, of "bytes_of ''a bc  d''"] loc
    unfolding len runs by auto
qed

subsection \<open>The maximal display width\<close>

lemma split_lines_not_Nil: "split_lines xs \<noteq> []"
  by (induction xs) (auto split: list.splits)

lemma widest_from_Nil: "widest_from L col [] = col"
  by (simp add: widest_from_def)

lemma widest_from_break:
  "is_line_break c \<Longrightarrow> widest_from L col (c # cs) = max col (widest_from L 0 cs)"
  using split_lines_not_Nil [of cs]
  by (cases "split_lines cs") (simp_all add: widest_from_def display_width_def)

lemma widest_from_other:
  "\<not> is_line_break c \<Longrightarrow> widest_from L col (c # cs) = widest_from L (advance L col c) cs"
  using split_lines_not_Nil [of cs]
  by (cases "split_lines cs") (simp_all add: widest_from_def)

lemma widest_line_from: "widest_line L data = widest_from L 0 data"
  using split_lines_not_Nil [of data]
  by (cases "split_lines data") (simp_all add: widest_from_def widest_line_def display_width_def)

lemma unat_max: "unat (max a b) = max (unat a) (unat b)"
  for a b :: uintmax
  by (simp add: max_def word_le_nat_alt)

lemma unat_tab:
  fixes lp :: uintmax
  assumes "unat lp + 8 < 2 ^ 64"
  shows "unat (lp + (tab_width - lp mod tab_width)) = 8 * (unat lp div 8 + 1)"
proof -
  have m: "unat (lp mod 8) = unat lp mod 8"
    by (simp add: unat_mod)
  have "lp mod 8 \<le> 8"
    by (simp add: word_le_nat_alt m)
  then have s: "unat (8 - lp mod 8) = 8 - unat lp mod 8"
    by (simp add: unat_sub m)
  have "unat lp + unat (8 - lp mod 8) < 2 ^ LENGTH(64)"
    using assms by (simp add: s)
  then have "unat (lp + (8 - lp mod 8)) = unat lp + unat (8 - lp mod 8)"
    by (simp only: unat_add_lem)
  also have "\<dots> = 8 * (unat lp div 8 + 1)"
    unfolding s by presburger
  finally show ?thesis
    by (simp add: tab_width_def)
qed

lemma unat_inc:
  fixes lp :: uintmax
  assumes "unat lp + 8 < 2 ^ 64"
  shows "unat (lp + 1) = unat lp + 1"
proof -
  have "unat lp + unat (1 :: uintmax) < 2 ^ LENGTH(64)"
    using assms by simp
  then have "unat (lp + 1) = unat lp + unat (1 :: uintmax)"
    by (simp only: unat_add_lem)
  then show ?thesis
    by simp
qed

lemma classify_other_column:
  assumes nb: "\<not> is_line_break c"
    and bound: "unat lp + 8 < 2 ^ 64"
    and cl: "classify L c (st, iw, lp) = (st', iw', lp')"
  shows "unat lp' = advance L (unat lp) c" and "max_line_length st' = max_line_length st"
  using nb cl unat_tab [OF bound] unat_inc [OF bound]
  by (auto simp: is_line_break_def advance_def Let_def split: if_splits)

lemma classify_break_column:
  assumes br: "is_line_break c"
    and cl: "classify L c (st, iw, lp) = (st', iw', lp')"
  shows "lp' = 0" and "max_line_length st' = max lp (max_line_length st)"
  using br cl by (auto simp: is_line_break_def split: if_splits)

lemma advance_le: "advance L col c \<le> col + 8"
proof -
  have "8 * (col div 8 + 1) \<le> col + 8"
    by presburger
  then show ?thesis
    by (simp add: advance_def)
qed

lemma scan_chunk_widest:
  "8 * length xs + unat lp < 2 ^ 64 \<Longrightarrow>
   scan_chunk L xs (st, iw, lp) = (st', iw', lp') \<Longrightarrow>
   unat (max lp' (max_line_length st')) =
     max (unat (max_line_length st)) (widest_from L (unat lp) xs)"
proof (induction xs arbitrary: st iw lp)
  case Nil
  then show ?case
    by (simp add: scan_chunk_def widest_from_Nil unat_max max.commute)
next
  case (Cons c cs)
  obtain st1 iw1 lp1 where cl: "classify L c (st, iw, lp) = (st1, iw1, lp1)"
    by (cases "classify L c (st, iw, lp)") auto
  from Cons.prems(2) cl have rest: "scan_chunk L cs (st1, iw1, lp1) = (st', iw', lp')"
    by (simp add: scan_chunk_def)
  show ?case
  proof (cases "is_line_break c")
    case True
    from classify_break_column [OF True cl]
    have lp1: "lp1 = 0" and m1: "max_line_length st1 = max lp (max_line_length st)"
      by simp_all
    have "8 * length cs + unat lp1 < 2 ^ 64"
      using Cons.prems(1) by (simp add: lp1)
    from Cons.IH [OF this rest]
    have "unat (max lp' (max_line_length st')) =
            max (unat (max_line_length st1)) (widest_from L (unat lp1) cs)" .
    then show ?thesis
      by (simp add: lp1 m1 unat_max widest_from_break [OF True] max.assoc max.left_commute)
  next
    case False
    have b: "unat lp + 8 < 2 ^ 64"
      using Cons.prems(1) by simp
    from classify_other_column [OF False b cl]
    have lp1: "unat lp1 = advance L (unat lp) c" and m1: "max_line_length st1 = max_line_length st"
      by simp_all
    have "unat lp1 \<le> unat lp + 8"
      by (simp add: lp1 advance_le)
    then have "8 * length cs + unat lp1 < 2 ^ 64"
      using Cons.prems(1) by simp
    from Cons.IH [OF this rest]
    have "unat (max lp' (max_line_length st')) =
            max (unat (max_line_length st1)) (widest_from L (unat lp1) cs)" .
    then show ?thesis
      by (simp add: lp1 m1 widest_from_other [OF False])
  qed
qed

lemma wc_widest:
  assumes cm: "count_max_line_length options" and len: "8 * length data < 2 ^ 64"
  shows "\<exists>stats. fst (wc L options (open_stream data)) = Inr stats \<and>
           unat (max_line_length stats) = widest_line L data"
proof -
  obtain st iw lp where sc: "scan_chunk L data (zero_stats, False, 0) = (st, iw, lp)"
    by (cases "scan_chunk L data (zero_stats, False, 0)") auto
  have ws: "wants_scan options"
    using cm by (simp add: wants_scan_def)
  have "8 * length data + unat (0 :: uintmax) < 2 ^ 64"
    using len by simp
  from scan_chunk_widest [OF this sc]
  have "unat (max lp (max_line_length st)) = widest_line L data"
    by (simp add: widest_line_from zero_stats_def)
  then show ?thesis
    by (simp add: wc_scanned [OF ws sc])
qed

lemma widest_line_examples:
  "widest_line C_locale [] = 0"
  "widest_line C_locale (bytes_of ''abc'') = 3"
  "widest_line C_locale (bytes_of ''abc\<newline>'') = 3"
  "widest_line C_locale (bytes_of ''a'' @ [0x09] @ bytes_of ''b'') = 9"
  by (simp_all add: widest_line_def display_width_def advance_def is_line_break_def
      C_locale_def isprint_ascii_def bytes_of_def)

text \<open>
  Claim C4. With max-line-length requested, the \<^verbatim>\<open>max_line_length\<close> of a cleanly ending
  input is the width of its widest display line, where lines end at newline, carriage
  return or form feed, the rest after the last of them is a line too, and a tab moves the
  column to the next multiple of 8. In the "C" locale it is 0 for the empty input, 3 for
  abc, 3 for abc followed by a newline and 9 for a, tab, b.
\<close>

theorem wc_max_line_length_widest:
  assumes cm: "count_max_line_length options"
  shows "(8 * length data < 2 ^ 64 \<longrightarrow>
           (\<exists>stats. fst (wc L options (open_stream data)) = Inr stats \<and>
              unat (max_line_length stats) = widest_line L data)) \<and>
         (\<exists>stats. fst (wc C_locale options (open_stream [])) = Inr stats \<and>
              unat (max_line_length stats) = 0) \<and>
         (\<exists>stats. fst (wc C_locale options (open_stream (bytes_of ''abc''))) = Inr stats \<and>
              unat (max_line_length stats) = 3) \<and>
         (\<exists>stats. fst (wc C_locale options (open_stream (bytes_of ''abc\<newline>''))) = Inr stats \<and>
              unat (max_line_length stats) = 3) \<and>
         (\<exists>stats. fst (wc C_locale options
                         (open_stream (bytes_of ''a'' @ [0x09] @ bytes_of ''b''))) = Inr stats \<and>
              unat (max_line_length stats) = 9)"
proof -
  have l0: "8 * length ([] :: byte list) < 2 ^ 64"
    and l1: "8 * length (bytes_of ''abc'') < 2 ^ 64"
    and l2: "8 * length (bytes_of ''abc\<newline>'') < 2 ^ 64"
    and l3: "8 * length (bytes_of ''a'' @ [0x09] @ bytes_of ''b'') < 2 ^ 64"
    by (simp_all add: bytes_of_def)
  have e0: "\<exists>stats. fst (wc C_locale options (open_stream [])) = Inr stats \<and>
              unat (max_line_length stats) = 0"
    using wc_widest [OF cm l0, where L = C_locale]
    unfolding widest_line_examples .
  have e1: "\<exists>stats. fst (wc C_locale options (open_stream (bytes_of ''abc''))) = Inr stats \<and>
              unat (max_line_length stats) = 3"
    using wc_widest [OF cm l1, where L = C_locale]
    unfolding widest_line_examples .
  have e2: "\<exists>stats. fst (wc C_locale options (open_stream (bytes_of ''abc\<newline>''))) = Inr stats \<and>
              unat (max_line_length stats) = 3"
    using wc_widest [OF cm l2, where L = C_locale]
    unfolding widest_line_examples .
  have e3: "\<exists>stats. fst (wc C_locale options
                         (open_stream (bytes_of ''a'' @ [0x09] @ bytes_of ''b''))) = Inr stats \<and>
              unat (max_line_length stats) = 9"
    using wc_widest [OF cm l3, where L = C_locale]
    unfolding widest_line_examples .
  from wc_widest [OF cm, of data L] e0 e1 e2 e3 show ?thesis
    by blast
qed

theorem wc_max_line_length_widest_witness:
  "count_max_line_length \<lparr>count_bytes = False, count_lines = False, count_words = False,
                          count_max_line_length = True\<rparr> \<and>
   8 * length (bytes_of ''ab\<newline>cdef'') < 2 ^ 64 \<and>
   (\<exists>stats. fst (wc C_locale
                  \<lparr>count_bytes = False, count_lines = False, count_words = False,
                   count_max_line_length = True\<rparr>
                  (open_stream (bytes_of ''ab\<newline>cdef''))) = Inr stats \<and>
            unat (max_line_length stats) = 4)"
proof -
  have cm: "count_max_line_length \<lparr>count_bytes = False, count_lines = False,
              count_words = False, count_max_line_length = True\<rparr>"
    by simp
  have len: "length (bytes_of ''ab\<newline>cdef'') = 7"
    by (simp add: bytes_of_def)
  have w: "widest_line C_locale (bytes_of ''ab\<newline>cdef'') = 4"
    by (simp add: widest_line_def display_width_def advance_def is_line_break_def
        C_locale_def isprint_ascii_def bytes_of_def)
  show ?thesis
    using wc_max_line_length_widest [OF cm, of "bytes_of ''ab\<newline>cdef''" C_locale]
    unfolding len w by auto
qed

subsection \<open>Evaluating concrete runs\<close>

lemma wc_example_a:
  "wc C_locale options (open_stream (bytes_of ''abc'')) =
     (Inr (if wants_scan options
           then \<lparr>lines = 0, words = 1, bytes = 3, max_line_length = 3\<rparr>
           else \<lparr>lines = 0, words = 0, bytes = 3, max_line_length = 0\<rparr>),
      drained (open_stream (bytes_of ''abc'')))"
  by (simp add: wc_open_stream consume_def scan_chunk_def add_bytes_def zero_stats_def
      bytes_of_def C_locale_def isprint_ascii_def isspace_ascii_def tab_width_def)

lemma wc_example_b:
  "wc C_locale options (open_stream (bytes_of ''ab'')) =
     (Inr (if wants_scan options
           then \<lparr>lines = 0, words = 1, bytes = 2, max_line_length = 2\<rparr>
           else \<lparr>lines = 0, words = 0, bytes = 2, max_line_length = 0\<rparr>),
      drained (open_stream (bytes_of ''ab'')))"
  by (simp add: wc_open_stream consume_def scan_chunk_def add_bytes_def zero_stats_def
      bytes_of_def C_locale_def isprint_ascii_def isspace_ascii_def tab_width_def)

lemma decimal_digit:
  "decimal 0 = ''0''" "decimal (Suc 0) = ''1''" "decimal 2 = ''2''" "decimal 3 = ''3''"
  by (simp_all add: decimal.simps digit_def)

lemma replicate_6: "replicate 6 x = [x, x, x, x, x, x]"
  by (simp add: eval_nat_numeral)

lemma format_L_C_locale: "format_L C_locale n = decimal (unat n)"
  by (simp add: C_locale_def)

lemmas run_simps =
  main_def parse_options_def no_options_def default_options_def example_env_def
  example_process_def wc_file_def wc_example_a wc_example_b wants_scan_def chkd_add_def
  EXIT_FAILURE_def EXIT_SUCCESS_def zero_stats_def write_counts_def format_field_def
  right_align_def format_L_C_locale decimal_digit replicate_6 Let_def stdio_synced_def

subsection \<open>Checked addition and the running total\<close>

lemma chkd_add_None_iff: "chkd_add a b = None \<longleftrightarrow> 2 ^ 64 \<le> unat a + unat b"
proof -
  have "a \<le> a + b \<longleftrightarrow> unat a + unat b < 2 ^ LENGTH(64)"
    by (rule no_olen_add_nat)
  then show ?thesis
    by (auto simp: chkd_add_def not_less not_le)
qed

lemma chkd_add_Some_iff:
  "chkd_add a b = Some c \<longleftrightarrow> unat a + unat b < 2 ^ 64 \<and> c = a + b"
  using chkd_add_None_iff [of a b]
  by (cases "chkd_add a b") (auto simp: chkd_add_def split: if_splits)

lemma chkd_add_exact: "chkd_add a b = Some c \<Longrightarrow> unat c = unat a + unat b"
proof -
  assume "chkd_add a b = Some c"
  then have "unat a + unat b < 2 ^ LENGTH(64)" and c: "c = a + b"
    by (simp_all add: chkd_add_Some_iff)
  then have "unat (a + b) = unat a + unat b"
    by (simp only: unat_add_lem)
  with c show ?thesis
    by simp
qed


lemma wc_file_no_overflow:
  assumes many: "1 < nfiles"
    and ok: "wc (loc E) options strm = (Inr stats, strm')"
    and l: "unat (lines total_stats) + unat (lines stats) < 2 ^ 64"
    and w: "unat (words total_stats) + unat (words stats) < 2 ^ 64"
    and b: "unat (bytes total_stats) + unat (bytes stats) < 2 ^ 64"
  shows "wc_file E options strm name nfiles total_stats p =
           (EXIT_SUCCESS, strm',
            \<lparr>lines = lines total_stats + lines stats,
             words = words total_stats + words stats,
             bytes = bytes total_stats + bytes stats,
             max_line_length = max (max_line_length stats) (max_line_length total_stats)\<rparr>,
            p\<lparr>cout := cout p @ [write_counts (loc E) options stats (Some name)]\<rparr>)"
proof -
  have cl: "chkd_add (lines total_stats) (lines stats) = Some (lines total_stats + lines stats)"
    using l by (simp add: chkd_add_Some_iff)
  have cw: "chkd_add (words total_stats) (words stats) = Some (words total_stats + words stats)"
    using w by (simp add: chkd_add_Some_iff)
  have cb: "chkd_add (bytes total_stats) (bytes stats) = Some (bytes total_stats + bytes stats)"
    using b by (simp add: chkd_add_Some_iff)
  show ?thesis
    using many ok cl cw cb by (simp add: wc_file_def Let_def)
qed

lemma wc_file_overflow:
  assumes many: "1 < nfiles"
    and ok: "wc (loc E) options strm = (Inr stats, strm')"
    and ovf: "2 ^ 64 \<le> unat (lines total_stats) + unat (lines stats) \<or>
              2 ^ 64 \<le> unat (words total_stats) + unat (words stats) \<or>
              2 ^ 64 \<le> unat (bytes total_stats) + unat (bytes stats)"
  shows "\<exists>total' msg.
           wc_file E options strm name nfiles total_stats p =
             (EXIT_FAILURE, strm', total',
              p\<lparr>cout := cout p @ [write_counts (loc E) options stats (Some name)],
                cerr := cerr p @ [msg]\<rparr>)"
proof (cases "chkd_add (lines total_stats) (lines stats)")
  case None
  then show ?thesis
    using many ok by (simp add: wc_file_def Let_def) blast
next
  case (Some l)
  note sl = this
  show ?thesis
  proof (cases "chkd_add (words total_stats) (words stats)")
    case None
    then show ?thesis
      using many ok sl by (simp add: wc_file_def Let_def) blast
  next
    case (Some w)
    from sl Some ovf have "chkd_add (bytes total_stats) (bytes stats) = None"
      by (simp add: chkd_add_Some_iff chkd_add_None_iff)
    then show ?thesis
      using many ok sl Some by (simp add: wc_file_def Let_def) blast
  qed
qed

lemma main_loop_append:
  "main_loop E options nfiles (xs @ ys) total_stats p =
     (case main_loop E options nfiles xs total_stats p of
        (Some rc, total', p') \<Rightarrow> (Some rc, total', p')
      | (None, total', p') \<Rightarrow> main_loop E options nfiles ys total' p')"
proof (induction xs arbitrary: total_stats p)
  case Nil
  show ?case by simp
next
  case (Cons x xs)
  show ?case
    by (simp add: Cons.IH split: path_kind.split prod.split)
qed

lemma main_with_arguments:
  assumes parse: "parse_options flags = Inr parsed"
    and ne: "args \<noteq> []"
    and loop: "main_loop E (default_options parsed) (int (length args)) args zero_stats p =
                 (r, total_stats, p')"
  shows "main E argv0 flags args p =
           (case r of
              Some ended \<Rightarrow> (ended, p')
            | None \<Rightarrow>
                (Exit 0, if 1 < length args
                    then p'\<lparr>cout := cout p' @
                           [write_counts (loc E) (default_options parsed) total_stats
                              (Some ''total'')]\<rparr>
                    else p'))"
  using parse ne loop by (simp add: main_def Let_def split: option.split)

subsection \<open>The running total\<close>

text \<open>
  Claim C5, as the code has it. When more than one argument is given and a source is
  read without fault, its lines, words and bytes are added to the running total by the
  overflow-checked addition (the sums are exact when none overflows), and its
  \<^verbatim>\<open>max_line_length\<close> is folded in by taking the maximum, not by addition.
\<close>

theorem wc_file_folds_into_total:
  assumes many: "1 < nfiles"
    and ok: "wc (loc E) options strm = (Inr stats, strm')"
    and l: "unat (lines total_stats) + unat (lines stats) < 2 ^ 64"
    and w: "unat (words total_stats) + unat (words stats) < 2 ^ 64"
    and b: "unat (bytes total_stats) + unat (bytes stats) < 2 ^ 64"
  shows "\<exists>total'.
           wc_file E options strm name nfiles total_stats p =
             (EXIT_SUCCESS, strm', total',
              p\<lparr>cout := cout p @ [write_counts (loc E) options stats (Some name)]\<rparr>) \<and>
           Some (lines total') = chkd_add (lines total_stats) (lines stats) \<and>
           Some (words total') = chkd_add (words total_stats) (words stats) \<and>
           Some (bytes total') = chkd_add (bytes total_stats) (bytes stats) \<and>
           unat (lines total') = unat (lines total_stats) + unat (lines stats) \<and>
           unat (words total') = unat (words total_stats) + unat (words stats) \<and>
           unat (bytes total') = unat (bytes total_stats) + unat (bytes stats) \<and>
           max_line_length total' = max (max_line_length stats) (max_line_length total_stats)"
proof -
  have cl: "chkd_add (lines total_stats) (lines stats) = Some (lines total_stats + lines stats)"
    using l by (simp add: chkd_add_Some_iff)
  have cw: "chkd_add (words total_stats) (words stats) = Some (words total_stats + words stats)"
    using w by (simp add: chkd_add_Some_iff)
  have cb: "chkd_add (bytes total_stats) (bytes stats) = Some (bytes total_stats + bytes stats)"
    using b by (simp add: chkd_add_Some_iff)
  show ?thesis
    using wc_file_no_overflow [OF many ok l w b, where name = name and p = p]
      cl cw cb chkd_add_exact [OF cl] chkd_add_exact [OF cw] chkd_add_exact [OF cb]
    by simp
qed

theorem wc_file_folds_into_total_witness:
  "(1 :: int) < 2 \<and>
   wc (loc example_env) \<lparr>count_bytes = False, count_lines = False, count_words = False,
        count_max_line_length = True\<rparr> (open_stream (bytes_of ''ab'')) =
     (Inr \<lparr>lines = 0, words = 1, bytes = 2, max_line_length = 2\<rparr>,
      drained (open_stream (bytes_of ''ab''))) \<and>
   (\<exists>total'.
      fst (snd (snd (wc_file example_env
        \<lparr>count_bytes = False, count_lines = False, count_words = False,
         count_max_line_length = True\<rparr>
        (open_stream (bytes_of ''ab'')) ''b'' 2
        \<lparr>lines = 0, words = 1, bytes = 3, max_line_length = 3\<rparr> example_process))) = total' \<and>
      unat (lines total') = 0 \<and> unat (words total') = 2 \<and> unat (bytes total') = 5 \<and>
      max_line_length total' = 3)"
proof -
  have many: "(1 :: int) < 2"
    by simp
  have ok: "wc (loc example_env) \<lparr>count_bytes = False, count_lines = False,
        count_words = False, count_max_line_length = True\<rparr> (open_stream (bytes_of ''ab'')) =
     (Inr \<lparr>lines = 0, words = 1, bytes = 2, max_line_length = 2\<rparr>,
      drained (open_stream (bytes_of ''ab'')))"
    by (simp add: example_env_def wc_example_b wants_scan_def)
  have l: "unat (lines \<lparr>lines = 0, words = 1, bytes = 3, max_line_length = (3 :: uintmax)\<rparr>) +
           unat (lines \<lparr>lines = 0, words = 1, bytes = 2, max_line_length = (2 :: uintmax)\<rparr>) < 2 ^ 64"
    by simp
  have w: "unat (words \<lparr>lines = 0, words = 1, bytes = 3, max_line_length = (3 :: uintmax)\<rparr>) +
           unat (words \<lparr>lines = 0, words = 1, bytes = 2, max_line_length = (2 :: uintmax)\<rparr>) < 2 ^ 64"
    by simp
  have b: "unat (bytes \<lparr>lines = 0, words = 1, bytes = 3, max_line_length = (3 :: uintmax)\<rparr>) +
           unat (bytes \<lparr>lines = 0, words = 1, bytes = 2, max_line_length = (2 :: uintmax)\<rparr>) < 2 ^ 64"
    by simp
  show ?thesis
    using wc_file_folds_into_total [OF many ok l w b, where name = "''b''" and p = example_process] ok
    by auto
qed

text \<open>
  Claim C5 as stated fails: with \<^verbatim>\<open>-L\<close>, files of widths 3 and 2 give a total line of
  3, their maximum, where addition would give 5.
\<close>

theorem total_max_line_length_is_not_a_sum:
  "main example_env ''wc'' ''L'' [''a'', ''b''] example_process =
     (Exit 0, \<lparr>cin = open_stream [],
          cout = [''        3  a\<newline>'', ''        2  b\<newline>'', ''        3  total\<newline>''],
          cerr = []\<rparr>)"
  by (simp add: run_simps)

subsection \<open>The loop over the arguments\<close>

lemma main_loop_after:
  assumes "main_loop E options nfiles pre total0 p0 = (None, total1, p1)"
  shows "main_loop E options nfiles (pre @ rest) total0 p0 =
           main_loop E options nfiles rest total1 p1"
  using assms by (simp add: main_loop_append)

lemma wc_without_scan:
  assumes "\<not> wants_scan options"
  shows "wc L options (open_stream data) =
           (Inr \<lparr>lines = 0, words = 0, bytes = of_nat (length data), max_line_length = 0\<rparr>,
            drained (open_stream data))"
  using assms by (simp add: wc_open_stream consume_def add_bytes_def zero_stats_def)

text \<open>
  Claim C6. When more than one argument is given and adding the lines, words or bytes of
  a source to the running total would pass the largest \<^verbatim>\<open>std::uintmax_t\<close>, \<^verbatim>\<open>main\<close>
  returns \<^verbatim>\<open>EXIT_FAILURE\<close> at once: the line of that source is the last one written to
  standard output (nothing for the arguments after it, and no total line), and one
  overflow message is written to the error stream. The checked addition either reports
  the overflow or returns the exact sum.
\<close>

theorem overflow_is_fatal:
  assumes parse: "parse_options flags = Inr parsed"
    and args: "args = pre @ arg # rest"
    and many: "1 < length args"
    and before: "main_loop E (default_options parsed) (int (length args)) pre zero_stats p =
                   (None, total1, p1)"
    and src: "fs E arg = RegularFile strm \<or> (fs E arg = Other \<and> arg = ''-'' \<and> strm = stdio_synced (cin p1))"
    and stats: "fst (wc (loc E) (default_options parsed) strm) = Inr stats"
    and ovf: "2 ^ 64 \<le> unat (lines total1) + unat (lines stats) \<or>
              2 ^ 64 \<le> unat (words total1) + unat (words stats) \<or>
              2 ^ 64 \<le> unat (bytes total1) + unat (bytes stats)"
  shows "fst (main E argv0 flags args p) = Exit EXIT_FAILURE \<and>
         cout (snd (main E argv0 flags args p)) =
           cout p1 @ [write_counts (loc E) (default_options parsed) stats (Some arg)] \<and>
         (\<exists>msg. cerr (snd (main E argv0 flags args p)) = cerr p1 @ [msg]) \<and>
         (case chkd_add a b of
            None \<Rightarrow> 2 ^ 64 \<le> unat a + unat b
          | Some c \<Rightarrow> unat c = unat a + unat b)"
proof -
  let ?opts = "default_options parsed" and ?n = "int (length args)"
  obtain strm' where ok: "wc (loc E) ?opts strm = (Inr stats, strm')"
    using stats by (cases "wc (loc E) ?opts strm") auto
  have n: "1 < ?n"
    using many by simp
  from wc_file_overflow [OF n ok ovf, where name = arg and p = p1]
  obtain total' msg where wf:
    "wc_file E ?opts strm arg ?n total1 p1 =
       (EXIT_FAILURE, strm', total',
        p1\<lparr>cout := cout p1 @ [write_counts (loc E) ?opts stats (Some arg)],
           cerr := cerr p1 @ [msg]\<rparr>)"
    by blast
  have "\<exists>p'. main_loop E ?opts ?n (arg # rest) total1 p1 = (Some (Exit EXIT_FAILURE), total', p') \<and>
          cout p' = cout p1 @ [write_counts (loc E) ?opts stats (Some arg)] \<and>
          cerr p' = cerr p1 @ [msg]"
    using src wf by auto
  then obtain p' where step: "main_loop E ?opts ?n (arg # rest) total1 p1 =
        (Some (Exit EXIT_FAILURE), total', p')"
    and out: "cout p' = cout p1 @ [write_counts (loc E) ?opts stats (Some arg)]"
    and err: "cerr p' = cerr p1 @ [msg]"
    by blast
  have loop: "main_loop E ?opts ?n args zero_stats p = (Some (Exit EXIT_FAILURE), total', p')"
    using main_loop_after [OF before, of "arg # rest"] step args by simp
  have ne: "args \<noteq> []"
    using args by simp
  have m: "main E argv0 flags args p = (Exit EXIT_FAILURE, p')"
    using main_with_arguments [OF parse ne loop, of argv0] by simp
  have chk: "case chkd_add a b of
            None \<Rightarrow> 2 ^ 64 \<le> unat a + unat b
          | Some c \<Rightarrow> unat c = unat a + unat b"
  proof (cases "chkd_add a b")
    case None
    then have "2 ^ 64 \<le> unat a + unat b"
      by (simp only: chkd_add_None_iff)
    with None show ?thesis
      by simp
  next
    case (Some c)
    then have "unat c = unat a + unat b"
      by (rule chkd_add_exact)
    with Some show ?thesis
      by simp
  qed
  show ?thesis
    using m out err chk by simp
qed

theorem overflow_is_fatal_witness:
  "parse_options ''c'' =
     Inr \<lparr>count_bytes = True, count_lines = False, count_words = False,
          count_max_line_length = False\<rparr> \<and>
   fs example_env ''b'' = RegularFile (open_stream (bytes_of ''ab'')) \<and>
   2 ^ 64 \<le> unat (18446744073709551614 :: uintmax) + unat (2 :: uintmax) \<and>
   fst (main example_env ''wc'' ''c'' [''huge'', ''huge'', ''b'', ''a''] example_process) =
     Exit EXIT_FAILURE \<and>
   length (cout (snd (main example_env ''wc'' ''c'' [''huge'', ''huge'', ''b'', ''a'']
                        example_process))) = 3 \<and>
   length (cerr (snd (main example_env ''wc'' ''c'' [''huge'', ''huge'', ''b'', ''a'']
                        example_process))) = 1"
proof -
  let ?c = "\<lparr>count_bytes = True, count_lines = False, count_words = False,
             count_max_line_length = False\<rparr>"
  let ?huge = "\<lparr>lines = 0, words = 0, bytes = 9223372036854775807,
                max_line_length = 0\<rparr> :: FileStatistics"
  let ?total1 = "\<lparr>lines = 0, words = 0, bytes = 18446744073709551614,
                  max_line_length = 0\<rparr> :: FileStatistics"
  let ?p1 = "\<lparr>cin = open_stream [],
              cout = [write_counts C_locale ?c ?huge (Some ''huge''),
                      write_counts C_locale ?c ?huge (Some ''huge'')],
              cerr = []\<rparr>"
  let ?stats = "\<lparr>lines = 0, words = 0, bytes = 2, max_line_length = 0\<rparr> :: FileStatistics"
  have parse: "parse_options ''c'' = Inr ?c"
    by (simp add: parse_options_def no_options_def)
  have args: "[''huge'', ''huge'', ''b'', ''a''] = [''huge'', ''huge''] @ ''b'' # [''a'']"
    by simp
  have many: "1 < length [''huge'', ''huge'', ''b'', ''a'']"
    by simp
  have before: "main_loop example_env (default_options ?c)
        (int (length [''huge'', ''huge'', ''b'', ''a''])) [''huge'', ''huge''] zero_stats
        example_process = (None, ?total1, ?p1)"
    by (simp add: default_options_def example_env_def example_process_def wc_file_def
        wc_without_scan wants_scan_def chkd_add_def EXIT_FAILURE_def EXIT_SUCCESS_def
        zero_stats_def Let_def)
  have reg: "fs example_env ''b'' = RegularFile (open_stream (bytes_of ''ab''))"
    by (simp add: example_env_def)
  have src: "fs example_env ''b'' = RegularFile (open_stream (bytes_of ''ab'')) \<or>
             (fs example_env ''b'' = Other \<and> ''b'' = ''-'' \<and>
              open_stream (bytes_of ''ab'') = stdio_synced (cin ?p1))"
    using reg by simp
  have stats: "fst (wc (loc example_env) (default_options ?c) (open_stream (bytes_of ''ab''))) =
                 Inr ?stats"
    by (simp add: default_options_def example_env_def wc_without_scan wants_scan_def
        bytes_of_def)
  have big: "2 ^ 64 \<le> unat (18446744073709551614 :: uintmax) + unat (2 :: uintmax)"
    by simp
  then have ovf: "2 ^ 64 \<le> unat (lines ?total1) + unat (lines ?stats) \<or>
              2 ^ 64 \<le> unat (words ?total1) + unat (words ?stats) \<or>
              2 ^ 64 \<le> unat (bytes ?total1) + unat (bytes ?stats)"
    by simp
  let ?run = "main example_env ''wc'' ''c'' [''huge'', ''huge'', ''b'', ''a''] example_process"
  note fatal = overflow_is_fatal [OF parse args many before src stats ovf,
      of "''wc''" 0 0]
  from fatal have rc: "fst ?run = Exit EXIT_FAILURE"
    by (rule conjunct1)
  from fatal have "cout (snd ?run) =
      cout ?p1 @ [write_counts (loc example_env) (default_options ?c) ?stats (Some ''b'')]"
    by blast
  then have out: "length (cout (snd ?run)) = 3"
    by simp
  from fatal have "\<exists>msg. cerr (snd ?run) = cerr ?p1 @ [msg]"
    by blast
  then have err: "length (cerr (snd ?run)) = 1"
    by auto
  from parse reg big rc out err show ?thesis
    by blast
qed

subsection \<open>The total line\<close>

lemma main_without_arguments:
  assumes parse: "parse_options flags = Inr parsed"
  shows "main E argv0 flags [] p =
           (case wc_file_single E (default_options parsed) (cin p) ''stdin'' p of
              (rc, cin', p') \<Rightarrow> (Exit rc, p'\<lparr>cin := cin'\<rparr>))"
  using parse by (simp add: main_def Let_def)

lemma main_parse_error:
  assumes "parse_options flags = Inl e"
  shows "cout (snd (main E argv0 flags args p)) =
           (if e = help_requested then cout p @ [help_text argv0] else cout p)"
  using assms by (cases e) (simp_all add: main_def)

text \<open>
  Claim C7, as the code has it. When the options parse and at least one positional
  argument is given, the output of \<^verbatim>\<open>main\<close> is the output of the loop over the arguments,
  followed by a line labeled total exactly when more than one argument was given and the
  loop ran to its end (it was not left early); how many of the arguments were actually
  processed does not matter. Without positional arguments at most one line is written,
  and it has no label. When help is requested or an option is unknown, no line of counts
  is written at all.
\<close>

theorem total_line_iff_several_arguments:
  "(parse_options flags = Inr parsed \<and> args \<noteq> [] \<and>
    main_loop E (default_options parsed) (int (length args)) args zero_stats p =
      (r, total_stats, p') \<longrightarrow>
      cout (snd (main E argv0 flags args p)) =
        cout p' @
        (if 1 < length args \<and> r = None
         then [write_counts (loc E) (default_options parsed) total_stats (Some ''total'')]
         else [])) \<and>
   (parse_options flags = Inr parsed \<longrightarrow>
      cout (snd (main E argv0 flags [] p)) = cout p \<or>
      (\<exists>stats. cout (snd (main E argv0 flags [] p)) =
         cout p @ [write_counts (loc E) (default_options parsed) stats None])) \<and>
   (parse_options flags = Inl e \<longrightarrow>
      cout (snd (main E argv0 flags args p)) =
        (if e = help_requested then cout p @ [help_text argv0] else cout p))"
proof -
  have first: "cout (snd (main E argv0 flags args p)) =
           cout p' @
           (if 1 < length args \<and> r = None
            then [write_counts (loc E) (default_options parsed) total_stats (Some ''total'')]
            else [])"
    if parse: "parse_options flags = Inr parsed" and ne: "args \<noteq> []"
      and loop: "main_loop E (default_options parsed) (int (length args)) args zero_stats p =
                   (r, total_stats, p')"
    using main_with_arguments [OF parse ne loop, of argv0]
    by (cases r) simp_all
  have second: "cout (snd (main E argv0 flags [] p)) = cout p \<or>
          (\<exists>stats. cout (snd (main E argv0 flags [] p)) =
             cout p @ [write_counts (loc E) (default_options parsed) stats None])"
    if parse: "parse_options flags = Inr parsed"
  proof (cases "wc (loc E) (default_options parsed) (cin p)")
    case (Pair res strm')
    show ?thesis
    proof (cases res)
      case (Inl e)
      with Pair show ?thesis
        by (simp add: main_without_arguments [OF parse] wc_file_single_def)
    next
      case (Inr stats)
      with Pair show ?thesis
        by (simp add: main_without_arguments [OF parse] wc_file_single_def) blast
    qed
  qed
  have third: "cout (snd (main E argv0 flags args p)) =
        (if e = help_requested then cout p @ [help_text argv0] else cout p)"
    if "parse_options flags = Inl e"
    using that by (rule main_parse_error)
  from first second third show ?thesis
    by blast
qed

theorem total_line_iff_several_arguments_witness:
  "parse_options [] = Inr no_options \<and>
   cout (snd (main example_env ''wc'' [] [''a'', ''d''] example_process)) =
     [''        0        1        3  a\<newline>'',
      ''        0        0        0  d\<newline>'',
      ''        0        1        3  total\<newline>''] \<and>
   cout (snd (main example_env ''wc'' [] [''a''] example_process)) =
     [''        0        1        3  a\<newline>''] \<and>
   cout (snd (main example_env ''wc'' [] [''a'', long_name, ''b''] example_process)) =
     [''        0        1        3  a\<newline>''] \<and>
   (cout (snd (main example_env ''wc'' [] [] example_process)) = [] \<or>
    (\<exists>stats. cout (snd (main example_env ''wc'' [] [] example_process)) =
       [write_counts C_locale (default_options no_options) stats None])) \<and>
   parse_options ''h'' = Inl help_requested \<and>
   cout (snd (main example_env ''wc'' ''h'' [''a'', ''b''] example_process)) =
     [help_text ''wc''] \<and>
   parse_options ''?'' = Inl unknown_option \<and>
   cout (snd (main example_env ''wc'' ''?'' [''a'', ''b''] example_process)) = []"
proof -
  have parse: "parse_options [] = Inr no_options"
    by (simp add: parse_options_def)
  have ne2: "[''a'', ''d''] \<noteq> []" and ne1: "[''a''] \<noteq> []"
    and ne3: "[''a'', long_name, ''b''] \<noteq> []"
    by simp_all
  have loop2: "main_loop example_env (default_options no_options) (int (length [''a'', ''d'']))
                 [''a'', ''d''] zero_stats example_process =
      (None, \<lparr>lines = 0, words = 1, bytes = 3, max_line_length = 3\<rparr>,
       \<lparr>cin = open_stream [],
        cout = [''        0        1        3  a\<newline>'',
                ''        0        0        0  d\<newline>''],
        cerr = [''wc: d: Is a directory.\<newline>'']\<rparr>)"
    by (simp add: run_simps)
  have loop1: "main_loop example_env (default_options no_options) (int (length [''a'']))
                 [''a''] zero_stats example_process =
      (None, zero_stats,
       \<lparr>cin = open_stream [],
        cout = [''        0        1        3  a\<newline>''],
        cerr = []\<rparr>)"
    by (simp add: run_simps)
  have loop3: "main_loop example_env (default_options no_options)
                 (int (length [''a'', long_name, ''b''])) [''a'', long_name, ''b'']
                 zero_stats example_process =
      (Some Terminated, \<lparr>lines = 0, words = 1, bytes = 3, max_line_length = 3\<rparr>,
       \<lparr>cin = open_stream [],
        cout = [''        0        1        3  a\<newline>''],
        cerr = []\<rparr>)"
    by (simp add: run_simps long_name_def)
  have tot: "write_counts (loc example_env) (default_options no_options)
               \<lparr>lines = 0, words = 1, bytes = 3, max_line_length = 3\<rparr> (Some ''total'') =
             ''        0        1        3  total\<newline>''"
    by (simp add: run_simps)
  have req: "parse_options ''h'' = Inl help_requested"
    by (simp add: parse_options_def)
  have unknown: "parse_options ''?'' = Inl unknown_option"
    by (simp add: parse_options_def)
  from total_line_iff_several_arguments
    [of "[]" no_options "[''a'', ''d'']" example_env example_process None _ _ "''wc''"]
    parse ne2 loop2
  have two: "cout (snd (main example_env ''wc'' [] [''a'', ''d''] example_process)) =
     [''        0        1        3  a\<newline>'',
      ''        0        0        0  d\<newline>'',
      ''        0        1        3  total\<newline>'']"
    by (simp add: tot)
  from total_line_iff_several_arguments
    [of "[]" no_options "[''a'']" example_env example_process None _ _ "''wc''"]
    parse ne1 loop1
  have one: "cout (snd (main example_env ''wc'' [] [''a''] example_process)) =
     [''        0        1        3  a\<newline>'']"
    by simp
  from total_line_iff_several_arguments
    [of "[]" no_options "[''a'', long_name, ''b'']" example_env example_process
      "Some Terminated" _ _ "''wc''"]
    parse ne3 loop3
  have three: "cout (snd (main example_env ''wc'' [] [''a'', long_name, ''b'']
                  example_process)) =
     [''        0        1        3  a\<newline>'']"
    by simp
  from total_line_iff_several_arguments
    [of "[]" no_options "[]" example_env example_process None zero_stats example_process
      "''wc''"]
    parse
  have none: "cout (snd (main example_env ''wc'' [] [] example_process)) = [] \<or>
    (\<exists>stats. cout (snd (main example_env ''wc'' [] [] example_process)) =
       [write_counts C_locale (default_options no_options) stats None])"
    by (simp add: example_process_def example_env_def)
  from total_line_iff_several_arguments
    [of "''h''" no_options "[''a'', ''b'']" example_env example_process None zero_stats
      example_process "''wc''" help_requested]
    req
  have h: "cout (snd (main example_env ''wc'' ''h'' [''a'', ''b''] example_process)) =
     [help_text ''wc'']"
    by (simp add: example_process_def)
  from total_line_iff_several_arguments
    [of "''?''" no_options "[''a'', ''b'']" example_env example_process None zero_stats
      example_process "''wc''" unknown_option]
    unknown
  have u: "cout (snd (main example_env ''wc'' ''?'' [''a'', ''b''] example_process)) = []"
    by (simp add: example_process_def)
  from parse two one three none req h unknown u show ?thesis
    by blast
qed

text \<open>
  Claim C7 as stated fails: of the two arguments only one names a source that is
  processed, and the total line is written all the same.
\<close>

theorem total_line_after_one_processed_source:
  "main example_env ''wc'' [] [''a'', ''missing''] example_process =
     (Exit 0, \<lparr>cin = open_stream [],
          cout = [''        0        1        3  a\<newline>'',
                  ''        0        1        3  total\<newline>''],
          cerr = [''wc: missing: No such file or directory.\<newline>'']\<rparr>)"
  by (simp add: run_simps)

subsection \<open>Read faults\<close>





subsection \<open>Directories and missing paths\<close>





subsection \<open>The output line\<close>

lemma parse_options_loop_flags:
  "parse_options_loop flags options = Inr options' \<Longrightarrow>
   count_bytes options' = (count_bytes options \<or> CHR ''c'' \<in> set flags) \<and>
   count_lines options' = (count_lines options \<or> CHR ''l'' \<in> set flags) \<and>
   count_words options' = (count_words options \<or> CHR ''w'' \<in> set flags) \<and>
   count_max_line_length options' = (count_max_line_length options \<or> CHR ''L'' \<in> set flags)"
proof (induction flags arbitrary: options)
  case Nil
  then show ?case by simp
next
  case (Cons c cs)
  then show ?case
    by (auto split: if_splits)
qed

lemma parse_options_set:
  assumes p1: "parse_options flags = Inr parsed"
    and p2: "parse_options flags' = Inr parsed'"
    and same: "set flags = set flags'"
  shows "parsed' = parsed"
proof (rule Options.equality)
  note f1 = parse_options_loop_flags [OF p1 [unfolded parse_options_def]]
  note f2 = parse_options_loop_flags [OF p2 [unfolded parse_options_def]]
  show "count_bytes parsed' = count_bytes parsed"
    using f1 f2 same by simp
  show "count_lines parsed' = count_lines parsed"
    using f1 f2 same by simp
  show "count_words parsed' = count_words parsed"
    using f1 f2 same by simp
  show "count_max_line_length parsed' = count_max_line_length parsed"
    using f1 f2 same by simp
  show "Options.more parsed' = Options.more parsed"
    by simp
qed

lemma right_align_aligned: "right_aligned_in w s (right_align w s)"
  by (simp add: right_aligned_in_def right_align_def max_def)

text \<open>
  Claim C10. Every line that \<^verbatim>\<open>write_counts\<close> writes holds the requested counters in
  the order lines, words, bytes, maximal line length, then the name; each counter is two
  spaces followed by its text right-aligned in at least seven characters. The order in
  which the flags were given has no effect: flag sequences with the same flags give the
  same line.
\<close>

theorem write_counts_fixed_order:
  assumes p1: "parse_options flags = Inr parsed"
    and p2: "parse_options flags' = Inr parsed'"
    and same: "set flags = set flags'"
  shows "write_counts L options stats label =
           concat (map (format_field L) (requested_fields options stats)) @
           (case label of None \<Rightarrow> [] | Some name \<Rightarrow> ''  '' @ name) @ ''\<newline>'' \<and>
         take 2 (format_field L n) = ''  '' \<and>
         right_aligned_in 7 (format_L L n) (drop 2 (format_field L n)) \<and>
         write_counts L (default_options parsed') stats label =
           write_counts L (default_options parsed) stats label"
proof -
  have a: "write_counts L options stats label =
           concat (map (format_field L) (requested_fields options stats)) @
           (case label of None \<Rightarrow> [] | Some name \<Rightarrow> ''  '' @ name) @ ''\<newline>''"
    by (simp add: write_counts_def requested_fields_def)
  have b: "take 2 (format_field L n) = ''  ''"
    by (simp add: format_field_def)
  have c: "right_aligned_in 7 (format_L L n) (drop 2 (format_field L n))"
    by (simp add: format_field_def right_align_aligned)
  have d: "write_counts L (default_options parsed') stats label =
           write_counts L (default_options parsed) stats label"
    by (simp add: parse_options_set [OF p1 p2 same])
  from a b c d show ?thesis
    by blast
qed

theorem write_counts_fixed_order_witness:
  "parse_options ''wl'' = parse_options ''lw'' \<and>
   set ''lw'' = set ''wl'' \<and>
   write_counts C_locale (default_options (projr (parse_options ''wl'')))
       \<lparr>lines = 2, words = 3, bytes = 0, max_line_length = 0\<rparr> (Some ''f'') =
     ''        2        3  f\<newline>'' \<and>
   write_counts C_locale (default_options (projr (parse_options ''lw'')))
       \<lparr>lines = 2, words = 3, bytes = 0, max_line_length = 0\<rparr> (Some ''f'') =
     ''        2        3  f\<newline>''"
proof -
  let ?lw = "\<lparr>count_bytes = False, count_lines = True, count_words = True,
              count_max_line_length = False\<rparr>"
  have p1: "parse_options ''lw'' = Inr ?lw"
    by (simp add: parse_options_def no_options_def)
  have p2: "parse_options ''wl'' = Inr ?lw"
    by (simp add: parse_options_def no_options_def)
  have same: "set ''lw'' = set ''wl''"
    by auto
  note inst = write_counts_fixed_order [OF p1 p2 same,
      of C_locale ?lw "\<lparr>lines = 2, words = 3, bytes = 0, max_line_length = 0\<rparr>" "Some ''f''" 2]
  have line: "write_counts C_locale (default_options ?lw)
       \<lparr>lines = 2, words = 3, bytes = 0, max_line_length = 0\<rparr> (Some ''f'') =
     ''        2        3  f\<newline>''"
    by (simp add: run_simps)
  from inst line p1 p2 same show ?thesis
    by simp
qed

end
